theory Spec2Isabelle
  imports Main
begin

section \<open>The parser combinators of the parser combinator example\<close>

subsection \<open>Errors and results\<close>

text \<open>
  \<^verbatim>\<open>class error\<close>: a wrapper around the message string, with the accessor
  \<^verbatim>\<open>message()\<close>.
\<close>

datatype error = Error (message: string)

text \<open>
  \<^verbatim>\<open>ftl::either<error,T>\<close> is the sum \<open>error + 'a\<close>: \<^verbatim>\<open>make_left\<close> is \<open>Inl\<close>,
  \<^verbatim>\<open>make_right\<close> is \<open>Inr\<close>, the conversion to bool tests for \<open>Inr\<close>,
  \<^verbatim>\<open>*r\<close> reads the right value and \<^verbatim>\<open>r.left()\<close> the left one. The two free
  functions \<^verbatim>\<open>fail<T>(s)\<close> and \<^verbatim>\<open>yield(t)\<close> of the header build the two variants.
\<close>

definition fail :: "string \<Rightarrow> error + 'a" where
  "fail s = Inl (Error s)"

definition yield :: "'a \<Rightarrow> error + 'a" where
  "yield t = Inr t"

text \<open>
  Modelled from the spec: the functor map \<^verbatim>\<open>f % r\<close> on \<^verbatim>\<open>ftl::either\<close>, which
  \<^verbatim>\<open>monad<parser<T>>::map\<close> calls and which lives in ftl/either.h, a header that is
  not among the sources. The spec's words for it: a failure is propagated unchanged, a
  success with value \<open>v\<close> becomes a success with \<open>f v\<close>.
\<close>

definition either_fmap :: "('a \<Rightarrow> 'b) \<Rightarrow> error + 'a \<Rightarrow> error + 'b" where
  "either_fmap f r = (case r of Inl e \<Rightarrow> Inl e | Inr v \<Rightarrow> Inr (f v))"

subsection \<open>The parser type\<close>

text \<open>
  \<^verbatim>\<open>parser<T>\<close> wraps one function \<^verbatim>\<open>runP\<close> from \<^verbatim>\<open>std::istream&\<close> to
  \<^verbatim>\<open>either<error,T>\<close>. The stream is passed by reference and mutated, so the model
  passes its state explicitly: a run takes the state \<open>'s\<close> before and returns the result
  together with the state after. The combinators of the header only hand the reference
  on to the parsers they wrap, so the state type stays a parameter: it stands for the
  stream and for anything else a captured callable can reach. A wrapped function is an
  arbitrary closure and need not return; \<open>None\<close> is the run that does not return.
\<close>

datatype ('s, 'a) parser =
  Parser (runP: "'s \<Rightarrow> ((error + 'a) \<times> 's) option")

definition run :: "('s, 'a) parser \<Rightarrow> 's \<Rightarrow> ((error + 'a) \<times> 's) option" where
  "run p s = runP p s"

subsection \<open>The monad instance\<close>

definition monad_pure :: "'a \<Rightarrow> ('s, 'a) parser" where
  "monad_pure a = Parser (\<lambda>stream. Some (yield a, stream))"

definition monad_map :: "('a \<Rightarrow> 'b) \<Rightarrow> ('s, 'a) parser \<Rightarrow> ('s, 'b) parser" where
  "monad_map f p =
     Parser (\<lambda>s.
       case run p s of
         None \<Rightarrow> None
       | Some (r, s') \<Rightarrow> Some (either_fmap f r, s'))"

definition monad_bind ::
  "('s, 'a) parser \<Rightarrow> ('a \<Rightarrow> ('s, 'b) parser) \<Rightarrow> ('s, 'b) parser" where
  "monad_bind p f =
     Parser (\<lambda>strm.
       case run p strm of
         None \<Rightarrow> None
       | Some (r, strm') \<Rightarrow>
           (case r of
              Inr v \<Rightarrow> run (f v) strm'
            | Inl e \<Rightarrow> Some (fail (message e), strm')))"

subsection \<open>The monoidA instance\<close>

text \<open>
  \<^verbatim>\<open>monoidA<parser>::fail<T>()\<close> has no definition here, because it yields no
  parser. Its closure calls \<^verbatim>\<open>fail<T>("Unknown parse error.")\<close> unqualified from inside
  the member template \<^verbatim>\<open>fail\<close>, so the name is found in the class and denotes that
  member, which takes no argument; lookup stops there and the free function
  \<^verbatim>\<open>fail<T>(const std::string&)\<close> is not considered. The call has no matching function,
  and \<^verbatim>\<open>fail<T>()\<close> is ill-formed as soon as it is instantiated. The sibling
  \<^verbatim>\<open>orDo\<close> names the free function as \<^verbatim>\<open>::fail<T>\<close>. What is proved below about a
  parser that always fails is proved of an arbitrary such parser, not of \<^verbatim>\<open>fail()\<close>.
\<close>

definition monoidA_orDo ::
  "('s, 'a) parser \<Rightarrow> ('s, 'a) parser \<Rightarrow> ('s, 'a) parser" where
  "monoidA_orDo p1 p2 =
     Parser (\<lambda>is.
       case run p1 is of
         None \<Rightarrow> None
       | Some (r, is1) \<Rightarrow>
           (case r of
              Inr v \<Rightarrow> Some (r, is1)
            | Inl e \<Rightarrow>
                (case run p2 is1 of
                   None \<Rightarrow> None
                 | Some (r2, is2) \<Rightarrow>
                     (case r2 of
                        Inr v2 \<Rightarrow> Some (r2, is2)
                      | Inl e2 \<Rightarrow>
                          Some (fail (message e @ '' or '' @ message e2), is2)))))"

subsection \<open>The laziness wrapper\<close>

text \<open>
  Both overloads of \<^verbatim>\<open>lazy\<close> (for an \<^verbatim>\<open>ftl::function\<close> and for a function
  pointer) have the same body: the closure calls \<^verbatim>\<open>f()\<close> and runs the parser it
  gets. The producer is an arbitrary callable, so calling it is a step of its own on the
  state: it may change the state (a producer that counts its calls, say) and it may not
  return. Constructing \<open>lazy f\<close> is the application of a function that has no state to
  thread: the producer is applied only under the closure's \<open>\<lambda>\<close>.
\<close>

definition lazy ::
  "('s \<Rightarrow> (('s, 'a) parser \<times> 's) option) \<Rightarrow> ('s, 'a) parser" where
  "lazy f =
     Parser (\<lambda>is.
       case f is of
         None \<Rightarrow> None
       | Some (p, is') \<Rightarrow> run p is')"

subsection \<open>Where the stream ends up\<close>

definition stream_after :: "('s, 'a) parser \<Rightarrow> 's \<Rightarrow> 's option" where
  "stream_after p s = map_option snd (run p s)"

subsection \<open>The primitives the header only declares\<close>

text \<open>
  For the primitives the stream is the string of the characters still to be read; the
  exhausted stream is the empty string.
\<close>

text \<open>
  Modelled from the spec: \<^verbatim>\<open>parseChar(c)\<close>, which the header declares and whose body
  is not among the sources. The spec's words: it succeeds when the next character equals
  \<open>c\<close>, with result \<open>c\<close>, consumed; it fails when the next character differs or the
  stream is exhausted, and a failed attempt does not advance the stream. The spec fixes
  no message text, so the error is made by the parameter \<open>mk\<close> from the character found
  (\<open>None\<close> at the end of the stream).
\<close>

definition parseChar :: "(char option \<Rightarrow> error) \<Rightarrow> char \<Rightarrow> (string, char) parser" where
  "parseChar mk c =
     Parser (\<lambda>s.
       case s of
         [] \<Rightarrow> Some (Inl (mk None), s)
       | x # xs \<Rightarrow> if x = c then Some (yield c, xs) else Some (Inl (mk (Some x)), s))"

text \<open>
  Modelled from the spec: \<^verbatim>\<open>many(p)\<close>, which the header declares and whose body is
  not among the sources. The spec's words: the string built by repeatedly running \<open>p\<close>
  until it fails, zero or more times; the input of the final failing attempt is not
  consumed (the stream rewinds to before that attempt); it never fails. The loop runs as
  long as \<open>p\<close> succeeds, so it need not end: \<open>None\<close> is the run that does not return.
\<close>

partial_function (option) many_loop ::
  "('s, char) parser \<Rightarrow> string \<Rightarrow> 's \<Rightarrow> (string \<times> 's) option" where
  "many_loop p acc s =
     (case run p s of
        None \<Rightarrow> None
      | Some (r, s') \<Rightarrow>
          (case r of
             Inr c \<Rightarrow> many_loop p (acc @ [c]) s'
           | Inl e \<Rightarrow> Some (acc, s)))"

definition many :: "('s, char) parser \<Rightarrow> ('s, string) parser" where
  "many p =
     Parser (\<lambda>s.
       case many_loop p [] s of
         None \<Rightarrow> None
       | Some (str, s') \<Rightarrow> Some (yield str, s'))"

text \<open>
  The spec's description of the result of \<open>many\<close>, as a check on a given outcome:
  started on \<open>s\<close>, the parser \<open>p\<close> succeeds once for each character of \<open>cs\<close>, in this
  order, each run starting where the one before stopped; it then fails on the stream
  \<open>s'\<close> that the last success left (\<open>s\<close> itself when \<open>cs\<close> is empty).
\<close>

fun many_spec :: "('s, char) parser \<Rightarrow> 's \<Rightarrow> string \<Rightarrow> 's \<Rightarrow> bool" where
  "many_spec p s [] s' =
     (s' = s \<and> (case run p s of Some (Inl e, s1) \<Rightarrow> True | _ \<Rightarrow> False))"
| "many_spec p s (c # cs) s' =
     (case run p s of
        Some (Inr c', s1) \<Rightarrow> c' = c \<and> many_spec p s1 cs s'
      | _ \<Rightarrow> False)"

subsection \<open>Properties of the monad instance\<close>

lemma run_Parser: "run (Parser g) s = g s"
  by (simp add: run_def)

text \<open>
  C2 (monad left identity): for every value \<open>a\<close>, every function \<open>f\<close> from values to
  parsers and every stream \<open>s\<close>, running \<open>bind (pure a) f\<close> on \<open>s\<close> gives what running
  \<open>f a\<close> on \<open>s\<close> gives: the same result and the same stream afterwards (and it returns
  exactly when \<open>f a\<close> does).
\<close>

theorem bind_pure_left_identity:
  "run (monad_bind (monad_pure a) f) s = run (f a) s"
  by (simp add: monad_bind_def monad_pure_def yield_def run_Parser)

text \<open>
  C3 (what bind does): running \<open>bind p f\<close> runs \<open>p\<close>. When \<open>p\<close> fails, the result is
  a failure of the new result type with the message \<open>p\<close> failed with, and the stream
  is as \<open>p\<close> left it. When \<open>p\<close> succeeds with \<open>v\<close>, the parser \<open>f v\<close> is run on the
  stream as \<open>p\<close> left it, and what that run returns (success or failure, and the
  stream) is returned as it is.
\<close>

theorem bind_runs_in_sequence:
  "run (monad_bind p f) s =
     (case run p s of
        None \<Rightarrow> None
      | Some (Inl e, s1) \<Rightarrow> Some (Inl (Error (message e)), s1)
      | Some (Inr v, s1) \<Rightarrow> run (f v) s1)"
  by (simp add: monad_bind_def fail_def run_Parser split: option.split sum.split)

subsection \<open>Properties of the monoidA instance\<close>

text \<open>
  C4 (what orDo does): running \<open>orDo p1 p2\<close> runs \<open>p1\<close>. When \<open>p1\<close> succeeds, that
  success is the result and \<open>p2\<close> plays no part: neither the result nor the stream
  afterwards depends on it. When \<open>p1\<close> fails, \<open>p2\<close> is run on the stream as \<open>p1\<close>
  left it; a success of \<open>p2\<close> is the result, and when \<open>p2\<close> fails too the result is a
  failure whose message is the two messages joined with " or ". The last line shows
  that \<open>p2\<close> is not run after a success: with a second parser that never returns, the
  composite still returns.
\<close>

theorem orDo_first_success_else_second:
  "run (monoidA_orDo p1 p2) s =
     (case run p1 s of
        None \<Rightarrow> None
      | Some (Inr v, s1) \<Rightarrow> Some (Inr v, s1)
      | Some (Inl e1, s1) \<Rightarrow>
          (case run p2 s1 of
             None \<Rightarrow> None
           | Some (Inr v2, s2) \<Rightarrow> Some (Inr v2, s2)
           | Some (Inl e2, s2) \<Rightarrow>
               Some (Inl (Error (message e1 @ '' or '' @ message e2)), s2))) \<and>
   run (monoidA_orDo (monad_pure v) (Parser (\<lambda>t. None))) s = Some (Inr v, s)"
  by (simp add: monoidA_orDo_def monad_pure_def fail_def yield_def run_Parser
        split: option.split sum.split)

text \<open>
  C10 (order of the joined message): when \<open>p1\<close> fails on the stream and \<open>p2\<close> then
  fails on the stream \<open>p1\<close> left, the message of \<open>orDo p1 p2\<close> is the message of
  \<open>p1\<close>, then " or ", then the message of \<open>p2\<close>, in this order.
\<close>

theorem orDo_message_order:
  assumes "run p1 s = Some (Inl e1, s1)" and "run p2 s1 = Some (Inl e2, s2)"
  shows "run (monoidA_orDo p1 p2) s =
           Some (Inl (Error (message e1 @ '' or '' @ message e2)), s2)"
  using assms by (simp add: monoidA_orDo_def fail_def run_Parser)

theorem orDo_message_order_witness:
  "run (monoidA_orDo (Parser (\<lambda>s. Some (fail ''expected a'', s)))
          (Parser (\<lambda>s. Some (fail ''expected b'', s))) :: (string, char) parser) ''z'' =
     Some (Inl (Error ''expected a or expected b''), ''z'')"
  using orDo_message_order [of "Parser (\<lambda>s. Some (fail ''expected a'', s))" "''z''"
      "Error ''expected a''" "''z''" "Parser (\<lambda>s. Some (fail ''expected b'', s))"
      "Error ''expected b''" "''z''"]
  by (simp add: run_Parser fail_def)

text \<open>
  C1 (alternative identity), as \<open>orDo\<close> has it. Let \<open>z\<close> be any parser that fails
  on every stream, with the error \<open>ez\<close>, and consumes nothing. Then \<open>orDo z p\<close> and
  \<open>orDo p z\<close> return exactly when \<open>p\<close> returns, leave the stream exactly as \<open>p\<close>
  leaves it, and succeed exactly when \<open>p\<close> succeeds, with the value of \<open>p\<close>. When
  \<open>p\<close> fails with message \<open>m\<close>, the first fails with the message of \<open>z\<close>, then
  " or ", then \<open>m\<close>, and the second with \<open>m\<close>, then " or ", then the message of \<open>z\<close>.
\<close>

theorem orDo_failing_unit_up_to_message:
  assumes "\<And>t. run z t = Some (Inl ez, t)"
  shows "run (monoidA_orDo z p) s =
           (case run p s of
              None \<Rightarrow> None
            | Some (Inr v, s') \<Rightarrow> Some (Inr v, s')
            | Some (Inl e, s') \<Rightarrow>
                Some (Inl (Error (message ez @ '' or '' @ message e)), s')) \<and>
         run (monoidA_orDo p z) s =
           (case run p s of
              None \<Rightarrow> None
            | Some (Inr v, s') \<Rightarrow> Some (Inr v, s')
            | Some (Inl e, s') \<Rightarrow>
                Some (Inl (Error (message e @ '' or '' @ message ez)), s'))"
  by (simp add: monoidA_orDo_def fail_def run_Parser assms split: option.split sum.split)

theorem orDo_failing_unit_up_to_message_witness:
  "run (monoidA_orDo (Parser (\<lambda>t. Some (fail ''Unknown parse error.'', t)))
          (Parser (\<lambda>t. Some (fail ''expected a'', t))) :: (string, char) parser) ''z'' =
     Some (Inl (Error ''Unknown parse error. or expected a''), ''z'') \<and>
   run (monoidA_orDo (Parser (\<lambda>t. Some (fail ''expected a'', t)))
          (Parser (\<lambda>t. Some (fail ''Unknown parse error.'', t))) :: (string, char) parser) ''z'' =
     Some (Inl (Error ''expected a or Unknown parse error.''), ''z'')"
  using orDo_failing_unit_up_to_message
    [of "Parser (\<lambda>t. Some (fail ''Unknown parse error.'', t))"
      "Error ''Unknown parse error.''"
      "Parser (\<lambda>t. Some (fail ''expected a'', t)) :: (string, char) parser" "''z''"]
  by (simp add: run_Parser fail_def)

text \<open>
  The identity laws as equalities of results fail where \<open>p\<close> fails. On the stream "z",
  with a parser that fails with "Unknown parse error." and consumes nothing in the place
  of \<open>fail()\<close>, and a \<open>p\<close> that fails with "expected a", neither composite returns what
  \<open>p\<close> returns: the message comes back joined with the other one.
\<close>

theorem orDo_failing_unit_counterexample:
  "run (monoidA_orDo (Parser (\<lambda>t. Some (fail ''Unknown parse error.'', t)))
          (Parser (\<lambda>t. Some (fail ''expected a'', t))) :: (string, char) parser) ''z''
     \<noteq> run (Parser (\<lambda>t. Some (fail ''expected a'', t)) :: (string, char) parser) ''z'' \<and>
   run (monoidA_orDo (Parser (\<lambda>t. Some (fail ''expected a'', t)))
          (Parser (\<lambda>t. Some (fail ''Unknown parse error.'', t))) :: (string, char) parser) ''z''
     \<noteq> run (Parser (\<lambda>t. Some (fail ''expected a'', t)) :: (string, char) parser) ''z''"
  by (simp add: monoidA_orDo_def fail_def run_Parser)

subsection \<open>Mapping\<close>

text \<open>
  C7 (what map does): running \<open>map f p\<close> runs \<open>p\<close>. A failure of \<open>p\<close> is returned
  with its error unchanged; a success with value \<open>v\<close> becomes a success with \<open>f v\<close>.
  In both cases the stream is left exactly as \<open>p\<close> left it.
\<close>

theorem map_applies_to_success:
  "run (monad_map f p) s =
     (case run p s of
        None \<Rightarrow> None
      | Some (Inl e, s') \<Rightarrow> Some (Inl e, s')
      | Some (Inr v, s') \<Rightarrow> Some (Inr (f v), s'))"
  by (simp add: monad_map_def either_fmap_def run_Parser split: option.split sum.split)

subsection \<open>No rewinding in bind and orDo\<close>

text \<open>
  C5 (no silent rewind): neither combinator ever puts the stream back. After
  \<open>bind p f\<close> the stream is where \<open>p\<close> left it when \<open>p\<close> failed, and where \<open>f v\<close>,
  started on the stream \<open>p\<close> left, stopped when \<open>p\<close> succeeded, whether \<open>f v\<close>
  succeeds or fails. After \<open>orDo p1 p2\<close> the stream is where \<open>p1\<close> left it when \<open>p1\<close>
  succeeded, and otherwise where \<open>p2\<close> stopped, and \<open>p2\<close> is started on the stream as
  the failed attempt of \<open>p1\<close> left it. The last two lines are instances on the stream
  "ab": a first parser that reads a character and whose continuation fails leaves "b"
  behind the failed bind; a first branch that consumes a character and fails hands "b",
  not "ab", to the second branch (which here returns the stream it sees).
\<close>

theorem combinators_never_rewind:
  "stream_after (monad_bind p f) s =
     (case run p s of
        None \<Rightarrow> None
      | Some (Inl e, s1) \<Rightarrow> Some s1
      | Some (Inr v, s1) \<Rightarrow> stream_after (f v) s1) \<and>
   stream_after (monoidA_orDo p1 p2) s =
     (case run p1 s of
        None \<Rightarrow> None
      | Some (Inr v, s1) \<Rightarrow> Some s1
      | Some (Inl e, s1) \<Rightarrow> stream_after p2 s1) \<and>
   run (monad_bind (Parser (\<lambda>t. Some (yield (take 1 t), drop 1 t)))
          (\<lambda>v. Parser (\<lambda>t. Some (fail ''second'', t))) :: (string, char) parser) ''ab'' =
     Some (Inl (Error ''second''), ''b'') \<and>
   run (monoidA_orDo (Parser (\<lambda>t. Some (fail ''first'', drop 1 t)))
          (Parser (\<lambda>t. Some (yield t, t)))) ''ab'' =
     Some (Inr ''b'', ''b'')"
  by (simp add: stream_after_def monad_bind_def monoidA_orDo_def
        fail_def yield_def run_Parser split: option.split sum.split)

subsection \<open>The laziness wrapper\<close>

text \<open>
  C9 (lazy): \<open>lazy f\<close> is built without calling the producer: \<open>lazy\<close> has no
  state to pass to it, and \<open>f\<close> is applied only when the parser is run. A run first
  calls \<open>f\<close> on the current state, then runs the parser \<open>f\<close> returned on the state
  \<open>f\<close> left, and returns that run's result. Nothing is kept between runs: a second
  run calls \<open>f\<close> again, on the state the first run left. The last two lines show it
  with a producer that counts its calls in the state: the count is 1 after one run and
  2 after two.
\<close>

theorem lazy_calls_producer_on_every_run:
  "run (lazy f) s =
     (case f s of None \<Rightarrow> None | Some (p, s1) \<Rightarrow> run p s1) \<and>
   (case run (lazy f) s of None \<Rightarrow> None | Some (r1, s2) \<Rightarrow> run (lazy f) s2) =
     (case f s of
        None \<Rightarrow> None
      | Some (p, s1) \<Rightarrow>
          (case run p s1 of
             None \<Rightarrow> None
           | Some (r1, s2) \<Rightarrow>
               (case f s2 of None \<Rightarrow> None | Some (p', s3) \<Rightarrow> run p' s3))) \<and>
   run (lazy (\<lambda>w. Some (monad_pure v, (Suc (fst w), snd w)))) (0, t) =
     Some (Inr v, (1, t)) \<and>
   (case run (lazy (\<lambda>w. Some (monad_pure v, (Suc (fst w), snd w)))) (0, t) of
      None \<Rightarrow> None
    | Some (r1, w1) \<Rightarrow> run (lazy (\<lambda>w. Some (monad_pure v, (Suc (fst w), snd w)))) w1) =
     Some (Inr v, (2, t))"
  by (simp add: lazy_def monad_pure_def yield_def run_Parser split: option.split prod.split)

subsection \<open>Repetition\<close>

text \<open>The two equations of \<open>many_spec\<close>, with the case distinctions resolved.\<close>

lemma many_spec_Nil_iff:
  "many_spec p s [] s' \<longleftrightarrow> s' = s \<and> (\<exists>e s1. run p s = Some (Inl e, s1))"
proof (cases "run p s")
  case None
  then show ?thesis by simp
next
  case (Some a)
  then show ?thesis by (cases a; cases "fst a") simp_all
qed

lemma many_spec_Cons_iff:
  "many_spec p s (c # cs) s' \<longleftrightarrow> (\<exists>s1. run p s = Some (Inr c, s1) \<and> many_spec p s1 cs s')"
proof (cases "run p s")
  case None
  then show ?thesis by simp
next
  case (Some a)
  then show ?thesis by (cases a; cases "fst a") auto
qed

lemma many_loop_success:
  "run p s = Some (Inr c, s1) \<Longrightarrow> many_loop p acc s = many_loop p (acc @ [c]) s1"
  by (subst many_loop.simps) simp

lemma many_loop_failure:
  "run p s = Some (Inl e, s1) \<Longrightarrow> many_loop p acc s = Some (acc, s)"
  by (subst many_loop.simps) simp

lemma many_loop_complete:
  "many_spec p s cs s' \<Longrightarrow> many_loop p acc s = Some (acc @ cs, s')"
proof (induction cs arbitrary: s acc)
  case Nil
  then obtain e s1 where "s' = s" and "run p s = Some (Inl e, s1)"
    unfolding many_spec_Nil_iff by blast
  then show ?case by (simp add: many_loop_failure)
next
  case (Cons c cs)
  from Cons.prems obtain s1 where r: "run p s = Some (Inr c, s1)" and rest: "many_spec p s1 cs s'"
    unfolding many_spec_Cons_iff by blast
  have "many_loop p acc s = many_loop p (acc @ [c]) s1"
    using r by (rule many_loop_success)
  also have "\<dots> = Some ((acc @ [c]) @ cs, s')"
    using rest by (rule Cons.IH)
  finally show ?case by simp
qed

lemma many_loop_sound:
  "many_loop p acc s = Some y \<Longrightarrow> \<exists>cs. fst y = acc @ cs \<and> many_spec p s cs (snd y)"
proof (induction rule: many_loop.raw_induct [rotated 1, consumes 1, case_names step])
  case (step many_loop' p acc s y)
  note 1 = step
  show ?case
  proof (cases "run p s")
    case None
    with 1(2) show ?thesis by simp
  next
    case (Some a)
    obtain r s1 where a: "a = (r, s1)" by (cases a)
    show ?thesis
    proof (cases r)
      case (Inl e)
      with 1(2) Some a have "y = (acc, s)" by simp
      moreover have "many_spec p s [] s"
        unfolding many_spec_Nil_iff using Some a Inl by simp
      ultimately show ?thesis by (intro exI [of _ "[]"]) simp
    next
      case (Inr c)
      with 1(2) Some a have "many_loop' p (acc @ [c]) s1 = Some y" by simp
      from 1(1) [OF this] obtain cs
        where y: "fst y = (acc @ [c]) @ cs" and sp: "many_spec p s1 cs (snd y)"
        by blast
      have "many_spec p s (c # cs) (snd y)"
        unfolding many_spec_Cons_iff using Some a Inr sp by simp
      with y show ?thesis by (intro exI [of _ "c # cs"]) simp
    qed
  qed
qed

lemma many_loop_pure_diverges_aux:
  "many_loop p acc s = Some y \<Longrightarrow> p \<noteq> monad_pure a"
proof (induction rule: many_loop.raw_induct [rotated 1, consumes 1, case_names step])
  case (step many_loop' p acc s y)
  note 1 = step
  show ?case
  proof
    assume p: "p = monad_pure a"
    with 1(2) have "many_loop' p (acc @ [a]) s = Some y"
      by (simp add: monad_pure_def yield_def run_Parser)
    from 1(1) [OF this] p show False by simp
  qed
qed

lemma many_loop_pure_diverges: "many_loop (monad_pure a) acc s = None"
proof (cases "many_loop (monad_pure a) acc s")
  case None
  then show ?thesis .
next
  case (Some y)
  from many_loop_pure_diverges_aux [OF this, of a] show ?thesis by simp
qed

lemma many_spec_exists:
  assumes ret: "\<And>t. run p t \<noteq> None"
    and prog: "\<And>t c t'. run p t = Some (Inr c, t') \<Longrightarrow> m t' < (m t :: nat)"
  shows "\<exists>cs s'. many_spec p s cs s'"
proof (induction "m s" arbitrary: s rule: less_induct)
  case less
  from ret [of s] obtain r s1 where r: "run p s = Some (r, s1)" by (cases "run p s") auto
  show ?case
  proof (cases r)
    case (Inl e)
    with r have "many_spec p s [] s" unfolding many_spec_Nil_iff by simp
    then show ?thesis by blast
  next
    case (Inr c)
    with r have run: "run p s = Some (Inr c, s1)" by simp
    from prog [OF run] less obtain cs s' where "many_spec p s1 cs s'" by blast
    with run have "many_spec p s (c # cs) s'" unfolding many_spec_Cons_iff by simp
    then show ?thesis by blast
  qed
qed

lemma many_of_spec: "many_spec p s cs s' \<Longrightarrow> run (many p) s = Some (Inr cs, s')"
  using many_loop_complete [of p s cs s' "[]"] by (simp add: many_def run_Parser yield_def)

lemma parseChar_returns: "run (parseChar mk c) t \<noteq> None"
  by (simp add: parseChar_def run_Parser split: list.split)

lemma parseChar_progress: "run (parseChar mk c) t = Some (Inr v, t') \<Longrightarrow> length t' < length t"
  by (cases t) (auto simp add: parseChar_def run_Parser yield_def split: if_splits)

lemma many_iff_spec:
  "run (many p) s = Some (Inr cs, s') \<longleftrightarrow> many_spec p s cs s'"
proof
  assume r: "run (many p) s = Some (Inr cs, s')"
  then obtain y where y: "many_loop p [] s = Some y"
    by (cases "many_loop p [] s") (simp_all add: many_def run_Parser)
  with r have "y = (cs, s')"
    by (cases y) (simp add: many_def run_Parser yield_def)
  with many_loop_sound [OF y] show "many_spec p s cs s'" by simp
next
  assume "many_spec p s cs s'"
  then show "run (many p) s = Some (Inr cs, s')" by (rule many_of_spec)
qed

lemma many_never_fails: "run (many p) s \<noteq> Some (Inl e, u)"
  by (simp add: many_def run_Parser yield_def split: option.split prod.split)

text \<open>
  A sufficient condition for the repetitions to end: \<open>p\<close> returns on every stream and
  each success consumes input, measured by some \<open>m\<close>. The primitive \<open>parseChar\<close>
  meets it with the number of characters left.
\<close>

lemma many_returns_when_p_consumes:
  assumes "\<And>t. run p t \<noteq> None"
    and "\<And>t c t'. run p t = Some (Inr c, t') \<Longrightarrow> m t' < (m t :: nat)"
  shows "\<exists>cs s'. run (many p) s = Some (Inr cs, s')"
proof -
  have "\<exists>cs s'. many_spec p s cs s'"
    by (rule many_spec_exists [where m = m]) (rule assms(1), erule assms(2))
  then obtain cs s' where "many_spec p s cs s'" by blast
  then have "run (many p) s = Some (Inr cs, s')" by (rule many_of_spec)
  then show ?thesis by (intro exI)
qed

lemma many_parseChar_returns: "\<exists>cs s'. run (many (parseChar mk c)) s = Some (Inr cs, s')"
  by (rule many_returns_when_p_consumes [where m = length])
    (rule parseChar_returns, erule parseChar_progress)

text \<open>
  C8 (many), as the model has it, for every parser \<open>p\<close> and every stream \<open>s\<close>:
  \<open>many p\<close> never returns a failure. It returns the string \<open>cs\<close> and leaves the stream
  \<open>s'\<close> exactly when the successive runs of \<open>p\<close>, each started where the one before
  stopped, succeed with the characters of \<open>cs\<close> in turn and the next run fails; \<open>s'\<close>
  is the stream as it was before that failing attempt, whatever the attempt consumed.
  So \<open>many p\<close> succeeds on every stream on which the runs of \<open>p\<close> reach a failing
  attempt, and only there. On the stream "123", \<open>many (parseChar 'x')\<close> succeeds with
  the empty string and the stream is still "123". The last two lines show the rewind:
  the parser "an 'a', then a 'b'" fails on "ac" after consuming the 'a', and
  \<open>many\<close> of it on "abac" returns "b" and leaves "ac", not "c".
\<close>

theorem many_returns_exactly_the_repetitions:
  "(run (many p) s = Some (Inr cs, s') \<longleftrightarrow> many_spec p s cs s') \<and>
   (\<forall>e u. run (many p) s \<noteq> Some (Inl e, u)) \<and>
   run (many (parseChar mk CHR ''x'')) ''123'' = Some (Inr [], ''123'') \<and>
   run (monad_bind (parseChar mk CHR ''a'') (\<lambda>c. parseChar mk CHR ''b'')) ''ac'' =
     Some (Inl (mk (Some CHR ''c'')), ''c'') \<and>
   run (many (monad_bind (parseChar mk CHR ''a'') (\<lambda>c. parseChar mk CHR ''b''))) ''abac'' =
     Some (Inr ''b'', ''ac'')"
proof (intro conjI)
  show "run (many p) s = Some (Inr cs, s') \<longleftrightarrow> many_spec p s cs s'"
    by (rule many_iff_spec)
next
  show "\<forall>e u. run (many p) s \<noteq> Some (Inl e, u)"
    by (simp add: many_never_fails)
next
  have "many_spec (parseChar mk CHR ''x'') ''123'' [] ''123''"
    by (simp add: parseChar_def run_Parser)
  then show "run (many (parseChar mk CHR ''x'')) ''123'' = Some (Inr [], ''123'')"
    by (rule many_of_spec)
next
  show "run (monad_bind (parseChar mk CHR ''a'') (\<lambda>c. parseChar mk CHR ''b'')) ''ac'' =
      Some (Inl (mk (Some CHR ''c'')), ''c'')"
    by (simp add: monad_bind_def parseChar_def run_Parser yield_def fail_def)
next
  have "many_spec (monad_bind (parseChar mk CHR ''a'') (\<lambda>c. parseChar mk CHR ''b''))
      ''abac'' ''b'' ''ac''"
    by (simp add: monad_bind_def parseChar_def run_Parser yield_def fail_def)
  then show "run (many (monad_bind (parseChar mk CHR ''a'') (\<lambda>c. parseChar mk CHR ''b'')))
      ''abac'' = Some (Inr ''b'', ''ac'')"
    by (rule many_of_spec)
qed

theorem many_returns_exactly_the_repetitions_witness:
  "many_spec (parseChar (\<lambda>found. Error ''mismatch'') CHR ''a'') ''aab'' ''aa'' ''b'' \<and>
   run (many (parseChar (\<lambda>found. Error ''mismatch'') CHR ''a'')) ''aab'' = Some (Inr ''aa'', ''b'')"
proof -
  have sp: "many_spec (parseChar (\<lambda>found. Error ''mismatch'') CHR ''a'') ''aab'' ''aa'' ''b''"
    by (simp add: parseChar_def run_Parser yield_def)
  with many_returns_exactly_the_repetitions
    [of "parseChar (\<lambda>found. Error ''mismatch'') CHR ''a''" "''aab''" "''aa''" "''b''"]
  show ?thesis by blast
qed

text \<open>
  Where the runs of \<open>p\<close> never reach a failing attempt the run does not succeed:
  \<open>pure c\<close> succeeds on every attempt, so the loop of \<open>many (pure c)\<close> goes on for
  ever and the run does not return.
\<close>

theorem many_pure_never_returns:
  "run (many (monad_pure CHR ''a'')) ''123'' = None"
  by (simp add: many_def run_Parser many_loop_pure_diverges)

end
